theory Spec2Isabelle
  imports Complex_Main
begin

section \<open>JavaScript values at the scripts' interface\<close>

text \<open>
  The k6 scripts of the repository read a response through \<^verbatim>\<open>res.status\<close> and
  \<^verbatim>\<open>res.json()\<close> and then walk the decoded body with property accesses
  (\<^verbatim>\<open>.pizza\<close>, \<^verbatim>\<open>.name\<close>, \<^verbatim>\<open>.ingredients\<close>, \<^verbatim>\<open>.length\<close>).
  A decoded body is a JSON value; a JavaScript value in these scripts is a JSON value or
  \<^verbatim>\<open>undefined\<close>, which is \<open>None\<close> here.
\<close>

datatype json =
  JNull
| JBool bool
| JNum rat
| JStr string
| JArr "json list"
| JObj "(string \<times> json) list"

type_synonym jsval = "json option"

datatype js_error =
  JsonParseError
| TypeError
| InvalidMetricValue
| SetupFailed int

text \<open>
  A response as the scripts see it. \<open>body\<close> is what \<^verbatim>\<open>res.json()\<close> makes of the
  body: \<open>None\<close> when the body is absent or is not JSON (the call throws), the decoded
  value otherwise. The members of a decoded object are listed once each.
\<close>

record response =
  status :: int
  body :: "json option"

definition res_json :: "response \<Rightarrow> js_error + json" where
  "res_json res = (case body res of None \<Rightarrow> Inl JsonParseError | Some j \<Rightarrow> Inr j)"

text \<open>
  Property access \<^verbatim>\<open>v.k\<close>. On \<^verbatim>\<open>undefined\<close> and \<^verbatim>\<open>null\<close> it throws a
  TypeError; an object gives the member or \<^verbatim>\<open>undefined\<close>; arrays and strings have
  \<^verbatim>\<open>length\<close>; numbers and booleans have none of the properties the scripts ask for.
\<close>

fun get_prop :: "jsval \<Rightarrow> string \<Rightarrow> js_error + jsval" where
  "get_prop None k = Inl TypeError"
| "get_prop (Some JNull) k = Inl TypeError"
| "get_prop (Some (JObj kvs)) k = Inr (map_of kvs k)"
| "get_prop (Some (JArr xs)) k =
     Inr (if k = ''length'' then Some (JNum (of_nat (length xs))) else None)"
| "get_prop (Some (JStr s)) k =
     Inr (if k = ''length'' then Some (JNum (of_nat (length s))) else None)"
| "get_prop (Some (JNum n)) k = Inr None"
| "get_prop (Some (JBool b)) k = Inr None"

text \<open>Truthiness, as \<^verbatim>\<open>&&\<close> and \<^verbatim>\<open>if\<close> test it.\<close>

fun truthy :: "jsval \<Rightarrow> bool" where
  "truthy None = False"
| "truthy (Some JNull) = False"
| "truthy (Some (JBool b)) = b"
| "truthy (Some (JNum n)) = (n \<noteq> 0)"
| "truthy (Some (JStr s)) = (s \<noteq> [])"
| "truthy (Some (JArr xs)) = True"
| "truthy (Some (JObj kvs)) = True"

definition ebind :: "js_error + 'a \<Rightarrow> ('a \<Rightarrow> js_error + 'b) \<Rightarrow> js_error + 'b" where
  "ebind r f = (case r of Inl e \<Rightarrow> Inl e | Inr x \<Rightarrow> f x)"

text \<open>The expression \<^verbatim>\<open>res.json().pizza\<close>, which every script evaluates.\<close>

definition pizza_of :: "response \<Rightarrow> js_error + jsval" where
  "pizza_of res = ebind (res_json res) (\<lambda>j. get_prop (Some j) ''pizza'')"

section \<open>The runtime the scripts call\<close>

text \<open>
  The scripts import \<^verbatim>\<open>http\<close>, \<^verbatim>\<open>check\<close>, \<^verbatim>\<open>sleep\<close>, \<^verbatim>\<open>Counter\<close> and
  \<^verbatim>\<open>Trend\<close> from the k6 runtime, which is not part of the repository. What the
  scripts' control flow needs of it is modelled here; what neither the scripts nor the
  specification fix is a parameter, collected in \<open>engine\<close>:
  \<^item> \<open>check_rethrows\<close>: whether an exception thrown by a check's callback leaves
    \<^verbatim>\<open>check\<close>;
  \<^item> \<open>throw_invalid\<close>: whether adding a value that is not a number to a metric throws
    (otherwise it is only dropped);
  \<^item> \<open>string_to_number\<close>: the number a string coerces to (\<open>None\<close> is NaN);
  \<^item> \<open>object_to_number\<close>: the numeric coercion of an array or an object, which goes
    through its \<^verbatim>\<open>valueOf\<close> and \<^verbatim>\<open>toString\<close> and throws when the value offers
    neither as a function (a decoded object can shadow them with members of its own);
  \<^item> \<open>object_to_string\<close>: whether the conversion of an array or an object to a
    string throws, for the same reason.
\<close>

record engine =
  check_rethrows :: bool
  throw_invalid :: bool
  string_to_number :: "string \<Rightarrow> rat option"
  object_to_number :: "json \<Rightarrow> js_error + rat option"
  object_to_string :: "json \<Rightarrow> js_error option"

text \<open>
  Numeric coercion, as the comparison \<^verbatim>\<open>v > 0\<close> and \<^verbatim>\<open>add(v)\<close> apply it:
  \<open>Inr None\<close> is NaN. It cannot throw on \<^verbatim>\<open>undefined\<close>, \<^verbatim>\<open>null\<close>, a boolean,
  a number or a string.
\<close>

fun to_number :: "engine \<Rightarrow> jsval \<Rightarrow> js_error + rat option" where
  "to_number eng None = Inr None"
| "to_number eng (Some JNull) = Inr (Some 0)"
| "to_number eng (Some (JBool b)) = Inr (Some (if b then 1 else 0))"
| "to_number eng (Some (JNum n)) = Inr (Some n)"
| "to_number eng (Some (JStr s)) = Inr (string_to_number eng s)"
| "to_number eng (Some (JArr xs)) = object_to_number eng (JArr xs)"
| "to_number eng (Some (JObj kvs)) = object_to_number eng (JObj kvs)"

text \<open>
  Conversion to a string, as a template literal applies it to each \<^verbatim>\<open>${...}\<close>. The
  string is only logged, so it is not kept: the result says whether the conversion
  throws.
\<close>

fun to_string :: "engine \<Rightarrow> jsval \<Rightarrow> js_error + unit" where
  "to_string eng (Some (JArr xs)) =
     (case object_to_string eng (JArr xs) of None \<Rightarrow> Inr () | Some e \<Rightarrow> Inl e)"
| "to_string eng (Some (JObj kvs)) =
     (case object_to_string eng (JObj kvs) of None \<Rightarrow> Inr () | Some e \<Rightarrow> Inl e)"
| "to_string eng v = Inr ()"

text \<open>
  Modelled from the spec: the Metric Sink, a mapping from a metric's name to its samples
  in insertion order (section 3, MetricSeries). The runtime's own sink is missing from
  the sources.
\<close>

type_synonym sink = "string \<Rightarrow> rat list"

definition empty_sink :: sink where
  "empty_sink = (\<lambda>name. [])"

definition record_sample :: "string \<Rightarrow> rat \<Rightarrow> sink \<Rightarrow> sink" where
  "record_sample name v s = s(name := s name @ [v])"

text \<open>A Counter's value is the sum of its samples.\<close>

definition counter_value :: "sink \<Rightarrow> string \<Rightarrow> rat" where
  "counter_value s name = sum_list (s name)"

text \<open>
  Script code runs against the sink and either returns a value or throws: the sink is
  passed along, and what was recorded before a throw stays recorded.
\<close>

type_synonym 'a js = "sink \<Rightarrow> (js_error + 'a) \<times> sink"

definition js_return :: "'a \<Rightarrow> 'a js" where
  "js_return x s = (Inr x, s)"

definition js_throw :: "js_error \<Rightarrow> 'a js" where
  "js_throw e s = (Inl e, s)"

definition js_lift :: "js_error + 'a \<Rightarrow> 'a js" where
  "js_lift r s = (r, s)"

definition js_bind :: "'a js \<Rightarrow> ('a \<Rightarrow> 'b js) \<Rightarrow> 'b js" where
  "js_bind m f s = (case m s of (Inl e, s') \<Rightarrow> (Inl e, s') | (Inr x, s') \<Rightarrow> f x s')"

text \<open>
  Modelled from the spec: the HTTP client's request (section 4.2), of which the sources
  hold only the calls. The response is what the server under test answers, an input
  here; the call counts one request in \<^verbatim>\<open>http_reqs\<close>. The timings of the phases
  are left out: no script reads them.
\<close>

definition http_request :: "response \<Rightarrow> response js" where
  "http_request res s = (Inr res, record_sample ''http_reqs'' 1 s)"

definition http_post :: "response \<Rightarrow> response js" where
  "http_post = http_request"

definition http_get :: "response \<Rightarrow> response js" where
  "http_get = http_request"

text \<open>
  \<^verbatim>\<open>check(res, {name: callback, ...})\<close> is the runtime's and missing from the sources;
  the specification does not describe it. It is taken as the scripts' comments have it:
  each callback is applied to the response, in the order written, and its outcome
  contributes to the \<^verbatim>\<open>checks\<close> rate; the call returns whether all passed (03.lifecycle.js
  reads that). A callback that throws counts as failed, and the exception leaves
  \<^verbatim>\<open>check\<close> when \<open>check_rethrows\<close> says so.
\<close>

fun check :: "engine \<Rightarrow> response \<Rightarrow> (response \<Rightarrow> js_error + bool) list \<Rightarrow> bool js" where
  "check eng res [] s = (Inr True, s)"
| "check eng res (c # cs) s =
     (case c res of
        Inr b \<Rightarrow>
          (case check eng res cs (record_sample ''checks'' (if b then 1 else 0) s) of
             (Inr ok, s') \<Rightarrow> (Inr (b \<and> ok), s')
           | (Inl e, s') \<Rightarrow> (Inl e, s'))
      | Inl e \<Rightarrow>
          (if check_rethrows eng then (Inl e, record_sample ''checks'' 0 s)
           else (case check eng res cs (record_sample ''checks'' 0 s) of
                   (Inr ok, s') \<Rightarrow> (Inr False, s')
                 | (Inl e', s') \<Rightarrow> (Inl e', s'))))"

text \<open>
  Modelled from the spec: \<^verbatim>\<open>record\<close> of the Metric Sink (section 4.3), which the scripts
  reach as \<^verbatim>\<open>add(v)\<close> of a Counter or a Trend; the runtime's own is missing from the
  sources. A number is appended to the metric's samples; \<^verbatim>\<open>undefined\<close>, \<^verbatim>\<open>null\<close>
  and what coerces to NaN are not samples, and what the call then does is a parameter.
  A coercion that throws leaves the call as an exception.
\<close>

definition metric_add :: "engine \<Rightarrow> string \<Rightarrow> jsval \<Rightarrow> unit js" where
  "metric_add eng name v s =
     (case (if v = None \<or> v = Some JNull then Inr None else to_number eng v) of
        Inl e \<Rightarrow> (Inl e, s)
      | Inr (Some x) \<Rightarrow> (Inr (), record_sample name x s)
      | Inr None \<Rightarrow> (if throw_invalid eng then Inl InvalidMetricValue else Inr (), s))"

text \<open>\<^verbatim>\<open>sleep\<close> suspends the execution; it records nothing.\<close>

definition sleep :: "rat \<Rightarrow> unit js" where
  "sleep seconds = js_return ()"

section \<open>The scripts\<close>

text \<open>
  \<^verbatim>\<open>console.log\<close> records nothing; of a logging statement only the evaluation of its
  argument is kept, because it can throw: in a template literal each expression is
  evaluated and converted to a string, from left to right.
\<close>

definition status_is_200 :: "response \<Rightarrow> js_error + bool" where
  "status_is_200 res = Inr (status res = 200)"

text \<open>
  k6/foundations/02.stages.js, the default function. Its logging statement evaluates and
  converts \<^verbatim>\<open>res.json().pizza.name\<close> and then
  \<^verbatim>\<open>res.json().pizza.ingredients.length\<close>.
\<close>

definition stages_default :: "engine \<Rightarrow> response \<Rightarrow> unit js" where
  "stages_default eng r =
     js_bind (http_post r) (\<lambda>res.
     js_bind (check eng res [status_is_200]) (\<lambda>_.
     js_bind (js_lift (ebind (pizza_of res) (\<lambda>p.
                       ebind (get_prop p ''name'') (to_string eng)))) (\<lambda>_.
     js_bind (js_lift (ebind (pizza_of res) (\<lambda>p.
                       ebind (get_prop p ''ingredients'') (\<lambda>i.
                       ebind (get_prop i ''length'') (to_string eng))))) (\<lambda>_.
     sleep 1))))"

text \<open>
  05.thresholds.js, the default function: \<^verbatim>\<open>pizzaData = res.json().pizza\<close>,
  \<^verbatim>\<open>ingredientCount = pizzaData.ingredients.length\<close>, the log line (which reads
  \<^verbatim>\<open>pizzaData.name\<close> and converts it and \<^verbatim>\<open>ingredientCount\<close> to strings), then
  the two custom metrics.
\<close>

definition thresholds_default :: "engine \<Rightarrow> response \<Rightarrow> unit js" where
  "thresholds_default eng r =
     js_bind (http_post r) (\<lambda>res.
     js_bind (check eng res [status_is_200]) (\<lambda>_.
     js_bind (js_lift (pizza_of res)) (\<lambda>pizzaData.
     js_bind (js_lift (ebind (get_prop pizzaData ''ingredients'')
                         (\<lambda>i. get_prop i ''length''))) (\<lambda>ingredientCount.
     js_bind (js_lift (ebind (get_prop pizzaData ''name'') (to_string eng))) (\<lambda>_.
     js_bind (js_lift (to_string eng ingredientCount)) (\<lambda>_.
     js_bind (metric_add eng ''quickpizza_number_of_pizzas'' (Some (JNum 1))) (\<lambda>_.
     js_bind (metric_add eng ''quickpizza_ingredients'' ingredientCount) (\<lambda>_.
     sleep 1))))))))"

text \<open>07.scenarios.js, \<^verbatim>\<open>getPizza\<close>: the same statements as 05.thresholds.js.\<close>

definition getPizza :: "engine \<Rightarrow> response \<Rightarrow> unit js" where
  "getPizza eng r =
     js_bind (http_post r) (\<lambda>res.
     js_bind (check eng res [status_is_200]) (\<lambda>_.
     js_bind (js_lift (pizza_of res)) (\<lambda>pizzaData.
     js_bind (js_lift (ebind (get_prop pizzaData ''ingredients'')
                         (\<lambda>i. get_prop i ''length''))) (\<lambda>ingredientCount.
     js_bind (js_lift (ebind (get_prop pizzaData ''name'') (to_string eng))) (\<lambda>_.
     js_bind (js_lift (to_string eng ingredientCount)) (\<lambda>_.
     js_bind (metric_add eng ''quickpizza_number_of_pizzas'' (Some (JNum 1))) (\<lambda>_.
     js_bind (metric_add eng ''quickpizza_ingredients'' ingredientCount) (\<lambda>_.
     sleep 1))))))))"

text \<open>
  A response whose body is JSON containing a pizza object: the body decodes to an object
  whose member \<^verbatim>\<open>pizza\<close> is an object.
\<close>

definition has_pizza_object :: "response \<Rightarrow> bool" where
  "has_pizza_object res =
     (case body res of
        Some (JObj kvs) \<Rightarrow> (case map_of kvs ''pizza'' of Some (JObj pkvs) \<Rightarrow> True | _ \<Rightarrow> False)
      | _ \<Rightarrow> False)"

text \<open>The sink once the request and the status check of an iteration are recorded.\<close>

definition after_request_and_check :: "response \<Rightarrow> sink \<Rightarrow> sink" where
  "after_request_and_check res s =
     record_sample ''checks'' (if status res = 200 then 1 else 0)
       (record_sample ''http_reqs'' 1 s)"

text \<open>
  04.metrics.js, the default function. The four checks, in the order written:
  \<^verbatim>\<open>res.status === 200\<close>, \<^verbatim>\<open>res.json().pizza !== undefined\<close>,
  \<^verbatim>\<open>res.json().pizza.name !== undefined\<close> and
  \<^verbatim>\<open>res.json().pizza.ingredients && res.json().pizza.ingredients.length > 0\<close>.
  The comparison coerces its left operand to a number, which can throw.
\<close>

definition response_has_pizza :: "response \<Rightarrow> js_error + bool" where
  "response_has_pizza res = ebind (pizza_of res) (\<lambda>p. Inr (p \<noteq> None))"

definition pizza_has_name :: "response \<Rightarrow> js_error + bool" where
  "pizza_has_name res =
     ebind (pizza_of res) (\<lambda>p. ebind (get_prop p ''name'') (\<lambda>n. Inr (n \<noteq> None)))"

definition pizza_has_ingredients :: "engine \<Rightarrow> response \<Rightarrow> js_error + bool" where
  "pizza_has_ingredients eng res =
     ebind (pizza_of res) (\<lambda>p. ebind (get_prop p ''ingredients'') (\<lambda>i.
       if truthy i then
         ebind (pizza_of res) (\<lambda>p'. ebind (get_prop p' ''ingredients'') (\<lambda>i'.
         ebind (get_prop i' ''length'') (\<lambda>l.
         ebind (to_number eng l) (\<lambda>n.
           Inr (case n of Some x \<Rightarrow> 0 < x | None \<Rightarrow> False)))))
       else Inr False))"

text \<open>
  The statement headed CUSTOM METRICS COLLECTION: the guard
  \<^verbatim>\<open>res.status === 200 && res.json().pizza\<close> (the right operand is evaluated only
  when the left one holds), and under it \<^verbatim>\<open>pizza = res.json().pizza\<close>,
  \<^verbatim>\<open>ingredientCount = pizza.ingredients.length\<close>, \<^verbatim>\<open>pizzas.add(1)\<close>,
  \<^verbatim>\<open>ingredients.add(ingredientCount)\<close> and the log line, which reads
  \<^verbatim>\<open>pizza.name\<close> and converts it and \<^verbatim>\<open>ingredientCount\<close> to strings. The other
  branch only logs the status, a number.
\<close>

definition metrics_collection :: "engine \<Rightarrow> response \<Rightarrow> unit js" where
  "metrics_collection eng res =
     js_bind (js_lift (if status res = 200 then ebind (pizza_of res) (\<lambda>p. Inr (truthy p))
                       else Inr False)) (\<lambda>guard.
     if guard then
       js_bind (js_lift (pizza_of res)) (\<lambda>pizza.
       js_bind (js_lift (ebind (get_prop pizza ''ingredients'')
                           (\<lambda>i. get_prop i ''length''))) (\<lambda>ingredientCount.
       js_bind (metric_add eng ''quickpizza_number_of_pizzas'' (Some (JNum 1))) (\<lambda>_.
       js_bind (metric_add eng ''quickpizza_ingredients'' ingredientCount) (\<lambda>_.
       js_bind (js_lift (ebind (get_prop pizza ''name'') (to_string eng))) (\<lambda>_.
       js_lift (to_string eng ingredientCount))))))
     else js_return ())"

definition metrics_default :: "engine \<Rightarrow> response \<Rightarrow> unit js" where
  "metrics_default eng r =
     js_bind (http_post r) (\<lambda>res.
     js_bind (check eng res
                [status_is_200, response_has_pizza, pizza_has_name, pizza_has_ingredients eng]) (\<lambda>_.
     js_bind (metrics_collection eng res) (\<lambda>_.
     sleep 1)))"

text \<open>The request and the four checks of 04.metrics.js, up to the collection statement.\<close>

definition metrics_checked :: "engine \<Rightarrow> response \<Rightarrow> sink \<Rightarrow> (js_error + bool) \<times> sink" where
  "metrics_checked eng res s =
     check eng res [status_is_200, response_has_pizza, pizza_has_name, pizza_has_ingredients eng]
       (record_sample ''http_reqs'' 1 s)"

text \<open>
  The guard of 04.metrics.js as a predicate of the response: with status 200, a truthy
  \<^verbatim>\<open>pizza\<close> field.
\<close>

definition truthy_pizza :: "response \<Rightarrow> bool" where
  "truthy_pizza res = (case pizza_of res of Inr p \<Rightarrow> truthy p | Inl e \<Rightarrow> False)"

text \<open>
  The \<^verbatim>\<open>ingredients\<close> member of a \<^verbatim>\<open>pizza\<close> object in the body, if there is one.
  The responses on which \<^verbatim>\<open>pizza.ingredients.length\<close> does not throw are those where
  it is there and is not \<^verbatim>\<open>null\<close>.
\<close>

definition ingredients_member :: "response \<Rightarrow> json option" where
  "ingredients_member res =
     (case body res of
        Some (JObj kvs) \<Rightarrow>
          (case map_of kvs ''pizza'' of
             Some (JObj pkvs) \<Rightarrow> map_of pkvs ''ingredients''
           | _ \<Rightarrow> None)
      | _ \<Rightarrow> None)"

definition pizza_with_ingredients :: "response \<Rightarrow> bool" where
  "pizza_with_ingredients res =
     (ingredients_member res \<noteq> None \<and> ingredients_member res \<noteq> Some JNull)"

text \<open>
  The responses an iteration of 04.metrics.js counts: status 200, a pizza object with
  ingredients, and, where an exception leaves \<^verbatim>\<open>check\<close>, a fourth check that does not
  throw.
\<close>

definition counted :: "engine \<Rightarrow> response \<Rightarrow> bool" where
  "counted eng res =
     (status res = 200 \<and> pizza_with_ingredients res
      \<and> \<not> (check_rethrows eng \<and> isl (pizza_has_ingredients eng res)))"

text \<open>
  An engine to run examples with: an exception of a check's callback leaves
  \<^verbatim>\<open>check\<close>, a value that is no number is dropped from a metric without a throw.
  No example coerces a string, an array or an object.
\<close>

definition example_engine :: engine where
  "example_engine =
     \<lparr>check_rethrows = True, throw_invalid = False, string_to_number = Map.empty,
      object_to_number = (\<lambda>j. Inr None), object_to_string = Map.empty\<rparr>"

text \<open>
  Three responses: the pizza of the specification's end-to-end scenario, a pizza object
  without ingredients, and the answer of a server that is down.
\<close>

definition margherita :: response where
  "margherita =
     \<lparr>status = 200,
      body = Some (JObj [(''pizza'',
               JObj [(''name'', JStr ''Margherita''),
                     (''ingredients'', JArr [JStr ''a'', JStr ''b''])])])\<rparr>"

definition bare_pizza :: response where
  "bare_pizza = \<lparr>status = 200, body = Some (JObj [(''pizza'', JObj [])])\<rparr>"

definition unavailable :: response where
  "unavailable = \<lparr>status = 503, body = None\<rparr>"

text \<open>
  A response whose \<^verbatim>\<open>ingredients\<close> is an object with a \<^verbatim>\<open>length\<close> of its own that
  shadows \<^verbatim>\<open>toString\<close> and \<^verbatim>\<open>valueOf\<close>, and an engine in which an exception
  leaves \<^verbatim>\<open>check\<close> and every coercion of an array or an object throws.
\<close>

definition weird_length :: response where
  "weird_length =
     \<lparr>status = 200,
      body = Some (JObj [(''pizza'', JObj [(''ingredients'',
               JObj [(''length'', JObj [(''toString'', JNull), (''valueOf'', JNull)])])])])\<rparr>"

definition strict_engine :: engine where
  "strict_engine =
     \<lparr>check_rethrows = True, throw_invalid = True, string_to_number = Map.empty,
      object_to_number = (\<lambda>j. Inl TypeError), object_to_string = (\<lambda>j. Some TypeError)\<rparr>"

text \<open>
  The setup function of 03.lifecycle.js, 04.metrics.js, 05.thresholds.js,
  06.checks-with-thresholds.js and 07.scenarios.js (they differ in their messages only):
  a GET of \<^verbatim>\<open>BASE_URL\<close>, and a throw unless the status is 200.
  (\<open>setup\<close> is a keyword of the theory language, hence \<open>setup_fn\<close>.)
\<close>

definition setup_fn :: "response \<Rightarrow> unit js" where
  "setup_fn r =
     js_bind (http_get r) (\<lambda>res.
       if status res \<noteq> 200 then js_throw (SetupFailed (status res)) else js_return ())"

section \<open>The iterations of a run\<close>

text \<open>
  Modelled from the spec: how the runtime treats an iteration that throws (section 4.1,
  failure semantics: it is recorded as a failed iteration and the execution goes on to
  its next iteration). The runtime's loop is missing from the sources. The responses are
  taken in the order in which they arrive; between a response and the \<^verbatim>\<open>sleep\<close> that
  ends its iteration a script does not suspend, so the iterations of all virtual users
  act on the sink one after the other. The result is the number of failed iterations and
  the sink.
\<close>

fun run_iterations :: "(response \<Rightarrow> unit js) \<Rightarrow> response list \<Rightarrow> sink \<Rightarrow> nat \<times> sink" where
  "run_iterations f [] s = (0, s)"
| "run_iterations f (r # rs) s =
     (case f r s of
        (Inl e, s') \<Rightarrow> (case run_iterations f rs s' of (n, s'') \<Rightarrow> (Suc n, s''))
      | (Inr u, s') \<Rightarrow> run_iterations f rs s')"

section \<open>Trend aggregates\<close>

text \<open>
  Modelled from the spec: the percentile and the average of a Trend (section 4.3); the
  runtime's aggregation is missing from the sources. A percentile request \<open>p\<close> over
  \<open>n\<close> samples maps to the 0-indexed rank \<open>ceil(p/100 * n) - 1\<close> of the samples sorted
  by value at query time; there is no such element when the series is empty or the rank
  falls outside it.
\<close>

definition percentile_rank :: "rat \<Rightarrow> nat \<Rightarrow> int" where
  "percentile_rank p n = \<lceil>p / 100 * of_nat n\<rceil> - 1"

definition percentile :: "rat \<Rightarrow> rat list \<Rightarrow> rat option" where
  "percentile p xs =
     (let r = percentile_rank p (length xs)
      in if 0 \<le> r \<and> r < int (length xs) then Some (sort xs ! nat r) else None)"

definition average :: "rat list \<Rightarrow> rat option" where
  "average xs = (if xs = [] then None else Some (sum_list xs / of_nat (length xs)))"

text \<open>
  The order of the specification's testable property 2: p99, p95, p90 and the average of
  a series, each at least the next.
\<close>

definition p99_p95_p90_avg_ordered :: "rat list \<Rightarrow> bool" where
  "p99_p95_p90_avg_ordered xs =
     (case (percentile 99 xs, percentile 95 xs, percentile 90 xs, average xs) of
        (Some a, Some b, Some c, Some m) \<Rightarrow> b \<le> a \<and> c \<le> b \<and> m \<le> c
      | _ \<Rightarrow> False)"

text \<open>
  The ingredient counts of eleven pizzas, as \<^verbatim>\<open>quickpizza_ingredients\<close> would hold
  them: ten pizzas with one ingredient and one with twelve.
\<close>

definition skewed_counts :: "rat list" where
  "skewed_counts = [1, 1, 1, 1, 1, 1, 1, 1, 1, 1, 12]"

section \<open>The iteration functions on a response without a pizza\<close>

lemma get_prop_throws:
  "get_prop v k = Inl e \<longleftrightarrow> (v = None \<or> v = Some JNull) \<and> e = TypeError"
  by (cases "(v, k)" rule: get_prop.cases) auto

lemma pizza_of_parse_error:
  "pizza_of res = Inl JsonParseError \<longleftrightarrow> body res = None"
  by (auto simp: pizza_of_def res_json_def ebind_def get_prop_throws split: option.splits)

lemma pizza_of_value:
  "pizza_of res = Inr p \<Longrightarrow> body res \<noteq> None"
  by (auto simp: pizza_of_def res_json_def ebind_def split: option.splits)

text \<open>
  Without a pizza object in the body, \<^verbatim>\<open>res.json().pizza.ingredients.length\<close> throws:
  in \<^verbatim>\<open>json()\<close> when the body does not decode, at a property access otherwise.
\<close>

lemma pizza_error_kind:
  assumes "\<not> has_pizza_object res"
  shows "ebind (pizza_of res) (\<lambda>p. ebind (get_prop p ''ingredients'') (\<lambda>i. get_prop i ''length''))
         = Inl (if body res = None then JsonParseError else TypeError)"
proof (cases "body res")
  case None
  then show ?thesis by (simp add: pizza_of_def res_json_def ebind_def)
next
  case (Some j)
  show ?thesis
  proof (cases j)
    case (JObj kvs)
    show ?thesis
    proof (cases "map_of kvs ''pizza''")
      case None
      with Some JObj show ?thesis by (simp add: pizza_of_def res_json_def ebind_def)
    next
      case (Some p)
      with \<open>body res = Some j\<close> JObj assms show ?thesis
        by (cases p) (simp_all add: pizza_of_def res_json_def ebind_def has_pizza_object_def)
    qed
  qed (use Some in \<open>simp_all add: pizza_of_def res_json_def ebind_def\<close>)
qed

text \<open>The request and the status check never throw; they leave two samples.\<close>

lemma request_then_check:
  "js_bind (http_post r) (\<lambda>res. js_bind (check eng res [status_is_200]) (f res)) s
   = f r (status r = 200) (after_request_and_check r s)"
  by (simp add: js_bind_def http_post_def http_request_def status_is_200_def
      after_request_and_check_def)

text \<open>
  Without a pizza object, what \<^verbatim>\<open>res.json().pizza\<close> gives is no object, so its
  \<^verbatim>\<open>name\<close> is \<^verbatim>\<open>undefined\<close> where reading it does not throw.
\<close>

lemma pizza_of_not_object:
  assumes "\<not> has_pizza_object res" "pizza_of res = Inr p"
  shows "p \<noteq> Some (JObj pkvs)"
proof (cases "body res")
  case None
  with assms(2) show ?thesis by (simp add: pizza_of_def res_json_def ebind_def)
next
  case (Some j)
  with assms show ?thesis
    by (cases j) (auto simp: pizza_of_def res_json_def ebind_def has_pizza_object_def)
qed

lemma name_of_no_object:
  assumes "\<And>pkvs. p \<noteq> Some (JObj pkvs)"
  shows "get_prop p ''name'' = Inl TypeError \<or> get_prop p ''name'' = Inr None"
proof (cases p)
  case None
  then show ?thesis by simp
next
  case (Some j)
  show ?thesis
  proof (cases j)
    case (JObj kvs)
    with Some assms[of kvs] show ?thesis by simp
  qed (use Some in simp_all)
qed

lemma stages_raises:
  assumes "\<not> has_pizza_object res"
  shows "stages_default eng res s
         = (Inl (if body res = None then JsonParseError else TypeError),
            after_request_and_check res s)"
proof (cases "pizza_of res")
  case (Inl e)
  with pizza_error_kind[OF assms] show ?thesis
    unfolding stages_default_def request_then_check
    by (simp add: js_bind_def js_lift_def ebind_def)
next
  case (Inr p)
  then have b: "body res \<noteq> None"
    by (rule pizza_of_value)
  from pizza_of_not_object[OF assms Inr] have "\<And>pkvs. p \<noteq> Some (JObj pkvs)" .
  then have "get_prop p ''name'' = Inl TypeError \<or> get_prop p ''name'' = Inr None"
    by (rule name_of_no_object)
  moreover have "isl (ebind (get_prop p ''ingredients'') (\<lambda>i. get_prop i ''length''))"
    using pizza_error_kind[OF assms] Inr by (simp add: ebind_def)
  then have "ebind (get_prop p ''ingredients'') (\<lambda>i. ebind (get_prop i ''length'') (to_string eng))
      = Inl TypeError"
    by (auto simp: ebind_def get_prop_throws split: sum.splits)
  ultimately show ?thesis
    unfolding stages_default_def request_then_check
    using Inr b by (auto simp: js_bind_def js_lift_def ebind_def)
qed

lemma thresholds_raises:
  assumes "\<not> has_pizza_object res"
  shows "thresholds_default eng res s
         = (Inl (if body res = None then JsonParseError else TypeError),
            after_request_and_check res s)"
  using pizza_error_kind[OF assms]
  unfolding thresholds_default_def request_then_check
  by (auto simp: js_bind_def js_lift_def ebind_def split: sum.splits if_splits)

lemma getPizza_raises:
  assumes "\<not> has_pizza_object res"
  shows "getPizza eng res s
         = (Inl (if body res = None then JsonParseError else TypeError),
            after_request_and_check res s)"
  using pizza_error_kind[OF assms]
  unfolding getPizza_def request_then_check
  by (auto simp: js_bind_def js_lift_def ebind_def split: sum.splits if_splits)

lemma custom_metrics_after_request_and_check:
  "after_request_and_check res s ''quickpizza_number_of_pizzas'' = s ''quickpizza_number_of_pizzas''"
  "after_request_and_check res s ''quickpizza_ingredients'' = s ''quickpizza_ingredients''"
  by (simp_all add: after_request_and_check_def record_sample_def)

text \<open>
  C9. On every response whose body is not JSON containing a pizza object, whatever its
  status (so for the answers of a failing server, with a status other than 200), the
  iteration functions of 02.stages.js, 05.thresholds.js and 07.scenarios.js throw after
  the request and the status check are recorded, at the accesses under
  \<^verbatim>\<open>res.json().pizza\<close>: a parse error when the body does not decode, a TypeError
  otherwise. The sink is then the one left by the request and the check, so the
  iteration adds no sample to \<^verbatim>\<open>quickpizza_number_of_pizzas\<close> or
  \<^verbatim>\<open>quickpizza_ingredients\<close>, and the run counts it as one failed iteration.
\<close>

theorem unguarded_pizza_access_raises:
  assumes "\<not> has_pizza_object res"
  shows "\<forall>f \<in> {stages_default, thresholds_default, getPizza}.
           f eng res s
             = (Inl (if body res = None then JsonParseError else TypeError),
                after_request_and_check res s)
           \<and> snd (f eng res s) ''quickpizza_number_of_pizzas'' = s ''quickpizza_number_of_pizzas''
           \<and> snd (f eng res s) ''quickpizza_ingredients'' = s ''quickpizza_ingredients''
           \<and> fst (run_iterations (f eng) [res] s) = 1"
  using stages_raises[OF assms] thresholds_raises[OF assms] getPizza_raises[OF assms]
  by (simp add: custom_metrics_after_request_and_check)

theorem unguarded_pizza_access_raises_witness:
  "\<not> has_pizza_object \<lparr>status = 500, body = Some (JObj [(''error'', JStr ''unavailable'')])\<rparr>
   \<and> stages_default example_engine
        \<lparr>status = 500, body = Some (JObj [(''error'', JStr ''unavailable'')])\<rparr> empty_sink
       = (Inl TypeError, (\<lambda>name. [])(''http_reqs'' := [1], ''checks'' := [0]))
   \<and> thresholds_default example_engine
        \<lparr>status = 500, body = Some (JObj [(''error'', JStr ''unavailable'')])\<rparr> empty_sink
       = (Inl TypeError, (\<lambda>name. [])(''http_reqs'' := [1], ''checks'' := [0]))
   \<and> getPizza example_engine
        \<lparr>status = 500, body = Some (JObj [(''error'', JStr ''unavailable'')])\<rparr> empty_sink
       = (Inl TypeError, (\<lambda>name. [])(''http_reqs'' := [1], ''checks'' := [0]))"
proof -
  let ?r = "\<lparr>status = 500, body = Some (JObj [(''error'', JStr ''unavailable'')])\<rparr>"
  have h: "\<not> has_pizza_object ?r"
    by (simp add: has_pizza_object_def)
  show ?thesis
    using h unguarded_pizza_access_raises[OF h, of example_engine empty_sink]
    by (simp add: after_request_and_check_def record_sample_def empty_sink_def)
qed

section \<open>The custom metrics of 04.metrics.js\<close>

lemma check_preserves:
  "name \<noteq> ''checks'' \<Longrightarrow> snd (check eng res cs s) name = s name"
proof (induction cs arbitrary: s)
  case Nil
  show ?case by simp
next
  case (Cons c cs)
  show ?case
  proof (cases "c res")
    case (Inr b)
    let ?s1 = "record_sample ''checks'' (if b then 1 else 0) s"
    obtain r s' where eq: "check eng res cs ?s1 = (r, s')"
      by (cases "check eng res cs ?s1")
    have "?s1 name = s name"
      using Cons.prems by (simp add: record_sample_def)
    with Cons.IH[OF Cons.prems, of ?s1] eq have "s' name = s name"
      by simp
    with Inr eq show ?thesis
      by (cases r) simp_all
  next
    case (Inl e)
    let ?s1 = "record_sample ''checks'' 0 s"
    obtain r s' where eq: "check eng res cs ?s1 = (r, s')"
      by (cases "check eng res cs ?s1")
    have s1: "?s1 name = s name"
      using Cons.prems by (simp add: record_sample_def)
    with Cons.IH[OF Cons.prems, of ?s1] eq have "s' name = s name"
      by simp
    with Inl eq s1 show ?thesis
      by (cases r) simp_all
  qed
qed

text \<open>\<^verbatim>\<open>check\<close> throws exactly when it rethrows and one of its callbacks throws.\<close>

lemma check_throws_iff:
  "isl (fst (check eng res cs s)) \<longleftrightarrow> check_rethrows eng \<and> (\<exists>c \<in> set cs. isl (c res))"
proof (induction cs arbitrary: s)
  case Nil
  show ?case by simp
next
  case (Cons c cs)
  show ?case
  proof (cases "c res")
    case (Inr b)
    let ?s1 = "record_sample ''checks'' (if b then 1 else 0) s"
    obtain r s' where eq: "check eng res cs ?s1 = (r, s')"
      by (cases "check eng res cs ?s1")
    from Cons.IH[of ?s1] eq
    have "isl r \<longleftrightarrow> check_rethrows eng \<and> (\<exists>c \<in> set cs. isl (c res))"
      by simp
    with Inr eq show ?thesis
      by (cases r) simp_all
  next
    case (Inl e)
    let ?s1 = "record_sample ''checks'' 0 s"
    obtain r s' where eq: "check eng res cs ?s1 = (r, s')"
      by (cases "check eng res cs ?s1")
    from Cons.IH[of ?s1] eq
    have "isl r \<longleftrightarrow> check_rethrows eng \<and> (\<exists>c \<in> set cs. isl (c res))"
      by simp
    with Inl eq show ?thesis
      by (cases r) simp_all
  qed
qed

lemma pizza_with_ingredients_iff:
  "pizza_with_ingredients res \<longleftrightarrow>
     (\<exists>kvs pkvs v. body res = Some (JObj kvs) \<and> map_of kvs ''pizza'' = Some (JObj pkvs)
        \<and> map_of pkvs ''ingredients'' = Some v \<and> v \<noteq> JNull)"
proof (cases "body res")
  case None
  then show ?thesis by (simp add: pizza_with_ingredients_def ingredients_member_def)
next
  case (Some j)
  show ?thesis
  proof (cases j)
    case (JObj kvs)
    show ?thesis
    proof (cases "map_of kvs ''pizza''")
      case None
      with Some JObj show ?thesis by (simp add: pizza_with_ingredients_def ingredients_member_def)
    next
      case (Some p)
      with \<open>body res = Some j\<close> JObj show ?thesis
        by (cases p) (auto simp: pizza_with_ingredients_def ingredients_member_def)
    qed
  qed (use Some in \<open>simp_all add: pizza_with_ingredients_def ingredients_member_def\<close>)
qed

lemma pizza_with_ingredientsD:
  assumes "pizza_with_ingredients res"
  obtains kvs pkvs v where "body res = Some (JObj kvs)" "map_of kvs ''pizza'' = Some (JObj pkvs)"
    "map_of pkvs ''ingredients'' = Some v" "v \<noteq> JNull"
  using assms unfolding pizza_with_ingredients_iff by blast

lemma pizza_with_ingredients_truthy:
  "pizza_with_ingredients res \<Longrightarrow> truthy_pizza res"
  by (erule pizza_with_ingredientsD) (simp add: truthy_pizza_def pizza_of_def res_json_def ebind_def)

lemma get_prop_isl:
  "isl (get_prop v k) \<longleftrightarrow> v = None \<or> v = Some JNull"
  by (cases "(v, k)" rule: get_prop.cases) auto

lemma has_pizza_object_iff:
  "has_pizza_object res \<longleftrightarrow>
     (\<exists>kvs pkvs. body res = Some (JObj kvs) \<and> map_of kvs ''pizza'' = Some (JObj pkvs))"
proof (cases "body res")
  case None
  then show ?thesis by (simp add: has_pizza_object_def)
next
  case (Some j)
  show ?thesis
  proof (cases j)
    case (JObj kvs)
    show ?thesis
    proof (cases "map_of kvs ''pizza''")
      case None
      with Some JObj show ?thesis by (simp add: has_pizza_object_def)
    next
      case (Some p)
      with \<open>body res = Some j\<close> JObj show ?thesis
        by (cases p) (auto simp: has_pizza_object_def)
    qed
  qed (use Some in \<open>simp_all add: has_pizza_object_def\<close>)
qed

lemma ingredient_count_defined:
  "\<not> isl (ebind (pizza_of res) (\<lambda>p. ebind (get_prop p ''ingredients'') (\<lambda>i. get_prop i ''length'')))
   \<longleftrightarrow> pizza_with_ingredients res"
proof (cases "has_pizza_object res")
  case False
  then have "\<not> pizza_with_ingredients res"
    unfolding has_pizza_object_iff pizza_with_ingredients_iff by blast
  with pizza_error_kind[OF False] show ?thesis by simp
next
  case True
  then obtain kvs pkvs where "body res = Some (JObj kvs)" "map_of kvs ''pizza'' = Some (JObj pkvs)"
    unfolding has_pizza_object_iff by blast
  then show ?thesis
    by (cases "map_of pkvs ''ingredients''")
       (auto simp: pizza_of_def res_json_def ebind_def pizza_with_ingredients_def
          ingredients_member_def get_prop_isl)
qed

text \<open>
  On a response with a truthy pizza the first three checks of 04.metrics.js do not throw;
  the fourth can, in its comparison.
\<close>

lemma metrics_first_checks_return:
  assumes "truthy_pizza res"
  shows "\<not> isl (status_is_200 res)" "\<not> isl (response_has_pizza res)"
    "\<not> isl (pizza_has_name res)"
proof -
  from assms obtain p where p: "pizza_of res = Inr p" "truthy p"
    by (auto simp: truthy_pizza_def split: sum.splits)
  then have "p \<noteq> None" "p \<noteq> Some JNull" by (cases p; auto)+
  then obtain nm where nm: "get_prop p ''name'' = Inr nm"
    by (cases "get_prop p ''name''") (auto simp: get_prop_throws)
  show "\<not> isl (status_is_200 res)" "\<not> isl (response_has_pizza res)"
    "\<not> isl (pizza_has_name res)"
    using p nm
    by (simp_all add: pizza_has_name_def response_has_pizza_def status_is_200_def ebind_def)
qed

lemma metrics_checked_throws:
  assumes "truthy_pizza res"
  shows "isl (fst (metrics_checked eng res s))
         \<longleftrightarrow> check_rethrows eng \<and> isl (pizza_has_ingredients eng res)"
  unfolding metrics_checked_def check_throws_iff
  using metrics_first_checks_return[OF assms] by simp

text \<open>With an array of ingredients the comparison is one of numbers.\<close>

lemma array_check_returns:
  assumes "ingredients_member res = Some (JArr xs)"
  shows "\<not> isl (pizza_has_ingredients eng res)"
proof -
  have "pizza_with_ingredients res"
    using assms by (simp add: pizza_with_ingredients_def)
  then obtain kvs pkvs v where b: "body res = Some (JObj kvs)"
    "map_of kvs ''pizza'' = Some (JObj pkvs)" "map_of pkvs ''ingredients'' = Some v"
    by (rule pizza_with_ingredientsD)
  with assms have "v = JArr xs"
    by (simp add: ingredients_member_def)
  with b show ?thesis
    by (simp add: pizza_has_ingredients_def pizza_of_def res_json_def ebind_def)
qed

lemma metric_add_number:
  "metric_add eng name (Some (JNum x)) s = (Inr (), record_sample name x s)"
  by (simp add: metric_add_def)

lemma metric_add_other:
  "name' \<noteq> name \<Longrightarrow> snd (metric_add eng name v s) name' = s name'"
  by (simp add: metric_add_def record_sample_def split: sum.splits option.splits)

lemma metric_add_same:
  "snd (metric_add eng name v s) name = s name
   \<or> (\<exists>x. snd (metric_add eng name v s) name = s name @ [x])"
  by (simp add: metric_add_def record_sample_def split: sum.splits option.splits)

lemma js_bind_unit:
  "js_bind m (\<lambda>u. js_return ()) = (m :: unit js)"
  by (rule ext) (auto simp: js_bind_def js_return_def split: prod.splits sum.splits)

text \<open>
  The collection statement leaves the sink as it is unless the response has status 200
  and a pizza with ingredients.
\<close>

lemma metrics_collection_skips:
  assumes "\<not> (status res = 200 \<and> pizza_with_ingredients res)"
  shows "snd (metrics_collection eng res s) = s"
proof (cases "status res = 200")
  case False
  then show ?thesis
    by (simp add: metrics_collection_def js_bind_def js_lift_def js_return_def)
next
  case True
  with assms have "\<not> pizza_with_ingredients res" by simp
  then have ic: "isl (ebind (pizza_of res)
      (\<lambda>p. ebind (get_prop p ''ingredients'') (\<lambda>i. get_prop i ''length'')))"
    using ingredient_count_defined by blast
  show ?thesis
  proof (cases "pizza_of res")
    case (Inl e)
    with True show ?thesis
      by (simp add: metrics_collection_def js_bind_def js_lift_def ebind_def)
  next
    case (Inr p)
    with ic have "isl (ebind (get_prop p ''ingredients'') (\<lambda>i. get_prop i ''length''))"
      by (simp add: ebind_def)
    then obtain e where "ebind (get_prop p ''ingredients'') (\<lambda>i. get_prop i ''length'') = Inl e"
      by (cases "ebind (get_prop p ''ingredients'') (\<lambda>i. get_prop i ''length'')") auto
    with True Inr show ?thesis
      by (simp add: metrics_collection_def js_bind_def js_lift_def js_return_def ebind_def)
  qed
qed

text \<open>
  On a response with status 200 and a pizza with ingredients the counter gets its sample
  first, then the trend is fed; the log line that follows records nothing.
\<close>

lemma metrics_collection_counts:
  assumes "status res = 200" "pizza_with_ingredients res"
  shows "\<exists>l. ebind (pizza_of res)
               (\<lambda>p. ebind (get_prop p ''ingredients'') (\<lambda>i. get_prop i ''length'')) = Inr l
           \<and> snd (metrics_collection eng res s)
               = snd (metric_add eng ''quickpizza_ingredients'' l
                        (record_sample ''quickpizza_number_of_pizzas'' 1 s))"
proof -
  from assms(2) obtain kvs pkvs v where b: "body res = Some (JObj kvs)"
    "map_of kvs ''pizza'' = Some (JObj pkvs)" "map_of pkvs ''ingredients'' = Some v" "v \<noteq> JNull"
    by (rule pizza_with_ingredientsD)
  then have p: "pizza_of res = Inr (Some (JObj pkvs))"
    by (simp add: pizza_of_def res_json_def ebind_def)
  from b obtain l where l: "get_prop (Some v) ''length'' = Inr l"
    by (cases "get_prop (Some v) ''length''") (auto simp: get_prop_throws)
  have 1: "ebind (pizza_of res)
      (\<lambda>p. ebind (get_prop p ''ingredients'') (\<lambda>i. get_prop i ''length'')) = Inr l"
    using p b l by (simp add: ebind_def)
  let ?s1 = "record_sample ''quickpizza_number_of_pizzas'' 1 s"
  obtain r s2 where m: "metric_add eng ''quickpizza_ingredients'' l ?s1 = (r, s2)"
    by (cases "metric_add eng ''quickpizza_ingredients'' l ?s1")
  have "snd (metrics_collection eng res s) = s2"
    unfolding metrics_collection_def
    using assms(1) p b l m
    by (cases r)
       (simp_all add: js_bind_def js_lift_def ebind_def metric_add_number split: sum.splits)
  with m 1 show ?thesis
    by simp
qed

lemma metrics_collection_pizzas:
  "snd (metrics_collection eng res s) ''quickpizza_number_of_pizzas''
   = (if status res = 200 \<and> pizza_with_ingredients res
      then s ''quickpizza_number_of_pizzas'' @ [1] else s ''quickpizza_number_of_pizzas'')"
proof (cases "status res = 200 \<and> pizza_with_ingredients res")
  case False
  then show ?thesis by (simp add: metrics_collection_skips)
next
  case True
  then obtain l where "snd (metrics_collection eng res s)
       = snd (metric_add eng ''quickpizza_ingredients'' l
                (record_sample ''quickpizza_number_of_pizzas'' 1 s))"
    using metrics_collection_counts[of res eng s] by blast
  with True show ?thesis
    by (simp add: metric_add_other record_sample_def)
qed

lemma metrics_collection_other:
  assumes "name \<noteq> ''quickpizza_number_of_pizzas''" "name \<noteq> ''quickpizza_ingredients''"
  shows "snd (metrics_collection eng res s) name = s name"
proof (cases "status res = 200 \<and> pizza_with_ingredients res")
  case False
  then show ?thesis by (simp add: metrics_collection_skips)
next
  case True
  then obtain l where "snd (metrics_collection eng res s)
       = snd (metric_add eng ''quickpizza_ingredients'' l
                (record_sample ''quickpizza_number_of_pizzas'' 1 s))"
    using metrics_collection_counts[of res eng s] by blast
  with assms show ?thesis
    by (simp add: metric_add_other record_sample_def)
qed

lemma metrics_collection_ingredients:
  "snd (metrics_collection eng res s) ''quickpizza_ingredients'' = s ''quickpizza_ingredients''
   \<or> (status res = 200 \<and> pizza_with_ingredients res
      \<and> (\<exists>x. snd (metrics_collection eng res s) ''quickpizza_ingredients''
                = s ''quickpizza_ingredients'' @ [x]))"
proof (cases "status res = 200 \<and> pizza_with_ingredients res")
  case False
  then show ?thesis by (simp add: metrics_collection_skips)
next
  case True
  then obtain l where "snd (metrics_collection eng res s)
       = snd (metric_add eng ''quickpizza_ingredients'' l
                (record_sample ''quickpizza_number_of_pizzas'' 1 s))"
    using metrics_collection_counts[of res eng s] by blast
  with True
    metric_add_same[of eng "''quickpizza_ingredients''" l
      "record_sample ''quickpizza_number_of_pizzas'' 1 s"]
  show ?thesis
    by (auto simp: record_sample_def)
qed

lemma metrics_collection_array:
  assumes "status res = 200" "ingredients_member res = Some (JArr xs)"
  shows "snd (metrics_collection eng res s)
     = record_sample ''quickpizza_ingredients'' (of_nat (length xs))
         (record_sample ''quickpizza_number_of_pizzas'' 1 s)"
proof -
  have pwi: "pizza_with_ingredients res"
    using assms(2) by (simp add: pizza_with_ingredients_def)
  then obtain kvs pkvs v where b: "body res = Some (JObj kvs)"
    "map_of kvs ''pizza'' = Some (JObj pkvs)" "map_of pkvs ''ingredients'' = Some v"
    by (rule pizza_with_ingredientsD)
  with assms(2) have "v = JArr xs"
    by (simp add: ingredients_member_def)
  with b have "ebind (pizza_of res)
      (\<lambda>p. ebind (get_prop p ''ingredients'') (\<lambda>i. get_prop i ''length''))
     = Inr (Some (JNum (of_nat (length xs))))"
    by (simp add: pizza_of_def res_json_def ebind_def)
  moreover obtain l where
    "ebind (pizza_of res) (\<lambda>p. ebind (get_prop p ''ingredients'') (\<lambda>i. get_prop i ''length''))
       = Inr l"
    "snd (metrics_collection eng res s)
       = snd (metric_add eng ''quickpizza_ingredients'' l
                (record_sample ''quickpizza_number_of_pizzas'' 1 s))"
    using metrics_collection_counts[OF assms(1) pwi, of eng s] by blast
  ultimately show ?thesis
    by (simp add: metric_add_number)
qed

text \<open>The whole iteration: request, checks, then the collection unless a check threw.\<close>

lemma metrics_default_unfold:
  "metrics_default eng res s
     = (case fst (metrics_checked eng res s) of
          Inl e \<Rightarrow> (Inl e, snd (metrics_checked eng res s))
        | Inr ok \<Rightarrow> metrics_collection eng res (snd (metrics_checked eng res s)))"
  unfolding metrics_default_def sleep_def js_bind_unit metrics_checked_def
  by (cases "check eng res [status_is_200, response_has_pizza, pizza_has_name, pizza_has_ingredients eng]
       (record_sample ''http_reqs'' 1 s)")
     (simp add: js_bind_def http_post_def http_request_def split: sum.splits)

lemma metrics_checked_preserves:
  "name \<noteq> ''checks'' \<Longrightarrow>
     snd (metrics_checked eng res s) name = record_sample ''http_reqs'' 1 s name"
  unfolding metrics_checked_def by (rule check_preserves)

text \<open>
  The collection statement is reached on a response with status 200 and a pizza with
  ingredients exactly when the response is counted.
\<close>

lemma counted_iff_reached:
  assumes "status res = 200" "pizza_with_ingredients res"
  shows "counted eng res \<longleftrightarrow> \<not> isl (fst (metrics_checked eng res s))"
  using assms metrics_checked_throws[OF pizza_with_ingredients_truthy[OF assms(2)], of eng s]
  by (simp add: counted_def)

lemma counted_pizza:
  "counted eng res \<Longrightarrow> status res = 200 \<and> pizza_with_ingredients res"
  by (simp add: counted_def)

lemma metrics_default_snd:
  "snd (metrics_default eng res s)
   = (if counted eng res then snd (metrics_collection eng res (snd (metrics_checked eng res s)))
      else snd (metrics_checked eng res s))"
proof (cases "status res = 200 \<and> pizza_with_ingredients res")
  case True
  then show ?thesis
    using counted_iff_reached[of res eng s]
    by (cases "fst (metrics_checked eng res s)") (simp_all add: metrics_default_unfold)
next
  case False
  then have "\<not> counted eng res"
    using counted_pizza by blast
  with False show ?thesis
    by (cases "fst (metrics_checked eng res s)")
       (simp_all add: metrics_default_unfold metrics_collection_skips)
qed

lemma metrics_default_pizzas:
  "snd (metrics_default eng res s) ''quickpizza_number_of_pizzas''
   = (if counted eng res
      then s ''quickpizza_number_of_pizzas'' @ [1] else s ''quickpizza_number_of_pizzas'')"
  using counted_pizza[of eng res]
  by (simp add: metrics_default_snd metrics_collection_pizzas metrics_checked_preserves
      record_sample_def)

lemma metrics_default_http_reqs:
  "snd (metrics_default eng res s) ''http_reqs'' = s ''http_reqs'' @ [1]"
  by (simp add: metrics_default_snd metrics_collection_other metrics_checked_preserves
      record_sample_def)

lemma metrics_default_ingredients:
  "snd (metrics_default eng res s) ''quickpizza_ingredients'' = s ''quickpizza_ingredients''
   \<or> (counted eng res
      \<and> (\<exists>x. snd (metrics_default eng res s) ''quickpizza_ingredients''
                = s ''quickpizza_ingredients'' @ [x]))"
proof -
  let ?s1 = "snd (metrics_checked eng res s)"
  have s1: "?s1 ''quickpizza_ingredients'' = s ''quickpizza_ingredients''"
    by (simp add: metrics_checked_preserves record_sample_def)
  show ?thesis
  proof (cases "counted eng res")
    case False
    with s1 show ?thesis by (simp add: metrics_default_snd)
  next
    case True
    have "snd (metrics_default eng res s) = snd (metrics_collection eng res ?s1)"
      using True by (simp add: metrics_default_snd)
    with True s1 metrics_collection_ingredients[of eng res ?s1] show ?thesis
      by auto
  qed
qed

lemma array_counted:
  assumes "status res = 200" "ingredients_member res = Some (JArr xs)"
  shows "counted eng res"
  using assms array_check_returns[OF assms(2), of eng]
  by (simp add: counted_def pizza_with_ingredients_def)

lemma metrics_default_array:
  assumes "status res = 200" "ingredients_member res = Some (JArr xs)"
  shows "snd (metrics_default eng res s) ''quickpizza_ingredients''
         = s ''quickpizza_ingredients'' @ [of_nat (length xs)]"
  using array_counted[OF assms, of eng]
  by (simp add: metrics_default_snd metrics_collection_array[OF assms]
      metrics_checked_preserves record_sample_def)

lemma run_iterations_snd:
  "snd (run_iterations f (r # rs) s) = snd (run_iterations f rs (snd (f r s)))"
  by (cases "f r s") (auto split: sum.splits prod.splits)

lemma run_metrics_pizzas:
  "snd (run_iterations (metrics_default eng) rs s) ''quickpizza_number_of_pizzas''
   = s ''quickpizza_number_of_pizzas'' @ replicate (length (filter (counted eng) rs)) 1"
proof (induction rs arbitrary: s)
  case Nil
  show ?case by simp
next
  case (Cons r rs)
  show ?case
    unfolding run_iterations_snd Cons.IH
    by (simp add: metrics_default_pizzas replicate_append_same)
qed

lemma run_metrics_http_reqs:
  "snd (run_iterations (metrics_default eng) rs s) ''http_reqs''
   = s ''http_reqs'' @ replicate (length rs) 1"
proof (induction rs arbitrary: s)
  case Nil
  show ?case by simp
next
  case (Cons r rs)
  show ?case
    unfolding run_iterations_snd Cons.IH
    by (simp add: metrics_default_http_reqs replicate_append_same)
qed

lemma run_metrics_ingredients:
  "length (snd (run_iterations (metrics_default eng) rs s) ''quickpizza_ingredients'')
   \<le> length (s ''quickpizza_ingredients'') + length (filter (counted eng) rs)"
proof (induction rs arbitrary: s)
  case Nil
  show ?case by simp
next
  case (Cons r rs)
  have "length (snd (metrics_default eng r s) ''quickpizza_ingredients'')
        \<le> length (s ''quickpizza_ingredients'') + (if counted eng r then 1 else 0)"
    using metrics_default_ingredients[of eng r s] by auto
  with Cons.IH[of "snd (metrics_default eng r s)"] show ?case
    unfolding run_iterations_snd by (simp split: if_splits)
qed

lemma sum_list_replicate_one:
  "sum_list (replicate n (1::rat)) = of_nat n"
  by (induction n) simp_all

text \<open>Numeric coercion throws only on an array or an object.\<close>

lemma to_number_throws:
  assumes "isl (to_number eng x)"
  shows "\<exists>j. x = Some j \<and> isl (object_to_number eng j) \<and> (\<forall>n. j \<noteq> JNum n)"
proof (cases x)
  case None
  with assms show ?thesis by simp
next
  case (Some j)
  with assms show ?thesis by (cases j) simp_all
qed

text \<open>
  The fourth check throws on a pizza with ingredients only in the coercion of
  \<^verbatim>\<open>ingredients.length\<close>, and then \<^verbatim>\<open>ingredients\<close> is an object with a member
  \<^verbatim>\<open>length\<close> of its own.
\<close>

lemma fourth_check_throws:
  assumes "pizza_with_ingredients res" "isl (pizza_has_ingredients eng res)"
  shows "\<exists>ikvs l. ingredients_member res = Some (JObj ikvs) \<and> map_of ikvs ''length'' = Some l
           \<and> isl (object_to_number eng l)"
proof -
  from assms(1) obtain kvs pkvs v where b: "body res = Some (JObj kvs)"
    "map_of kvs ''pizza'' = Some (JObj pkvs)" "map_of pkvs ''ingredients'' = Some v" "v \<noteq> JNull"
    by (rule pizza_with_ingredientsD)
  then have m: "ingredients_member res = Some v"
    by (simp add: ingredients_member_def)
  from b obtain l where l: "get_prop (Some v) ''length'' = Inr l"
    by (cases "get_prop (Some v) ''length''") (auto simp: get_prop_throws)
  from assms(2) b l have "isl (to_number eng l)"
    by (auto simp: pizza_has_ingredients_def pizza_of_def res_json_def ebind_def
        split: if_splits sum.splits)
  then obtain j where j: "l = Some j" "isl (object_to_number eng j)" "\<And>n. j \<noteq> JNum n"
    using to_number_throws by blast
  show ?thesis
  proof (cases v)
    case (JObj ikvs)
    with l j m show ?thesis by simp
  qed (use l j in auto)
qed

text \<open>
  C10, as amended. In 04.metrics.js an iteration adds a sample 1 to
  \<^verbatim>\<open>quickpizza_number_of_pizzas\<close> exactly when the response is counted: it has status
  200, its \<^verbatim>\<open>pizza\<close> field is an object with an \<^verbatim>\<open>ingredients\<close> member other
  than \<^verbatim>\<open>null\<close>, and the fourth check does not throw out of \<^verbatim>\<open>check\<close>. A counted
  response has a truthy \<^verbatim>\<open>pizza\<close> field, but a truthy \<^verbatim>\<open>pizza\<close> field is not
  enough. A response with status 200 and such a pizza is not counted only where an
  exception leaves \<^verbatim>\<open>check\<close> and \<^verbatim>\<open>ingredients\<close> is an object whose own
  \<^verbatim>\<open>length\<close> throws when coerced to a number. \<^verbatim>\<open>quickpizza_ingredients\<close> gets a
  sample only in an iteration that is counted; a response with status 200 and an array
  of ingredients is counted and gives the trend the array's length. Hence after the
  iterations of any responses, from an empty sink, the counter is the number of counted
  responses so far, the trend holds no more samples than the counter, and the counter
  never exceeds \<^verbatim>\<open>http_reqs\<close>, the number of requests issued. This holds for every
  setting of the engine's parameters.
\<close>

theorem metrics_counter_counts_counted_responses:
  "snd (metrics_default eng res s) ''quickpizza_number_of_pizzas''
     = (if counted eng res
        then s ''quickpizza_number_of_pizzas'' @ [1] else s ''quickpizza_number_of_pizzas'')
   \<and> (counted eng res \<longrightarrow> status res = 200 \<and> pizza_with_ingredients res \<and> truthy_pizza res)
   \<and> (status res = 200 \<and> pizza_with_ingredients res \<and> \<not> counted eng res
        \<longrightarrow> check_rethrows eng
            \<and> (\<exists>ikvs l. ingredients_member res = Some (JObj ikvs)
                  \<and> map_of ikvs ''length'' = Some l \<and> isl (object_to_number eng l)))
   \<and> (snd (metrics_default eng res s) ''quickpizza_ingredients'' \<noteq> s ''quickpizza_ingredients''
        \<longrightarrow> counted eng res)
   \<and> (status res = 200 \<and> ingredients_member res = Some (JArr xs)
        \<longrightarrow> counted eng res
            \<and> snd (metrics_default eng res s) ''quickpizza_ingredients''
                = s ''quickpizza_ingredients'' @ [of_nat (length xs)])
   \<and> counter_value (snd (run_iterations (metrics_default eng) rs empty_sink))
        ''quickpizza_number_of_pizzas''
       = of_nat (length (filter (counted eng) rs))
   \<and> counter_value (snd (run_iterations (metrics_default eng) rs empty_sink)) ''http_reqs''
       = of_nat (length rs)
   \<and> counter_value (snd (run_iterations (metrics_default eng) rs empty_sink))
        ''quickpizza_number_of_pizzas''
       \<le> counter_value (snd (run_iterations (metrics_default eng) rs empty_sink)) ''http_reqs''
   \<and> length (snd (run_iterations (metrics_default eng) rs empty_sink) ''quickpizza_ingredients'')
       \<le> length (snd (run_iterations (metrics_default eng) rs empty_sink)
                   ''quickpizza_number_of_pizzas'')"
proof -
  let ?final = "snd (run_iterations (metrics_default eng) rs empty_sink)"
  have p: "counter_value ?final ''quickpizza_number_of_pizzas''
       = of_nat (length (filter (counted eng) rs))"
    by (simp add: counter_value_def run_metrics_pizzas empty_sink_def sum_list_replicate_one)
  have h: "counter_value ?final ''http_reqs'' = of_nat (length rs)"
    by (simp add: counter_value_def run_metrics_http_reqs empty_sink_def sum_list_replicate_one)
  have le: "counter_value ?final ''quickpizza_number_of_pizzas''
       \<le> counter_value ?final ''http_reqs''"
    unfolding p h by simp
  have i: "snd (metrics_default eng res s) ''quickpizza_ingredients'' \<noteq> s ''quickpizza_ingredients''
        \<longrightarrow> counted eng res"
    using metrics_default_ingredients[of eng res s] by blast
  have tr: "length (?final ''quickpizza_ingredients'')
       \<le> length (?final ''quickpizza_number_of_pizzas'')"
    using run_metrics_ingredients[of eng rs empty_sink]
    by (simp add: run_metrics_pizzas empty_sink_def)
  have c: "counted eng res \<longrightarrow> status res = 200 \<and> pizza_with_ingredients res \<and> truthy_pizza res"
    using counted_pizza[of eng res] pizza_with_ingredients_truthy[of res] by blast
  have n: "status res = 200 \<and> pizza_with_ingredients res \<and> \<not> counted eng res
        \<longrightarrow> check_rethrows eng
            \<and> (\<exists>ikvs l. ingredients_member res = Some (JObj ikvs)
                  \<and> map_of ikvs ''length'' = Some l \<and> isl (object_to_number eng l))"
    using fourth_check_throws[of res eng] by (auto simp: counted_def)
  have a: "status res = 200 \<and> ingredients_member res = Some (JArr xs)
        \<longrightarrow> counted eng res
            \<and> snd (metrics_default eng res s) ''quickpizza_ingredients''
                = s ''quickpizza_ingredients'' @ [of_nat (length xs)]"
    using array_counted[of res xs eng] metrics_default_array[of res xs eng s] by blast
  from p h le i tr c n a metrics_default_pizzas[of eng res s] show ?thesis
    by blast
qed

text \<open>
  The amended C10 under an engine that rethrows and whose coercions of objects throw: at
  the Margherita response, which is counted; at a response whose \<^verbatim>\<open>ingredients.length\<close>
  is an object, which is not; and at a run of four responses of which only the first is
  counted.
\<close>

theorem metrics_counter_witness:
  "counted strict_engine margherita \<and> status margherita = 200
   \<and> pizza_with_ingredients margherita \<and> truthy_pizza margherita
   \<and> ingredients_member margherita = Some (JArr [JStr ''a'', JStr ''b''])
   \<and> snd (metrics_default strict_engine margherita empty_sink) ''quickpizza_number_of_pizzas'' = [1]
   \<and> snd (metrics_default strict_engine margherita empty_sink) ''quickpizza_ingredients'' = [2]
   \<and> status weird_length = 200 \<and> pizza_with_ingredients weird_length
   \<and> \<not> counted strict_engine weird_length \<and> check_rethrows strict_engine
   \<and> snd (metrics_default strict_engine weird_length empty_sink) ''quickpizza_number_of_pizzas'' = []
   \<and> counter_value (snd (run_iterations (metrics_default strict_engine)
          [margherita, bare_pizza, unavailable, weird_length] empty_sink))
        ''quickpizza_number_of_pizzas'' = 1
   \<and> counter_value (snd (run_iterations (metrics_default strict_engine)
          [margherita, bare_pizza, unavailable, weird_length] empty_sink)) ''http_reqs'' = 4"
proof -
  have m: "status margherita = 200"
    "ingredients_member margherita = Some (JArr [JStr ''a'', JStr ''b''])"
    "pizza_with_ingredients margherita"
    by (simp_all add: margherita_def pizza_with_ingredients_def ingredients_member_def)
  have w: "status weird_length = 200" "pizza_with_ingredients weird_length"
    "isl (pizza_has_ingredients strict_engine weird_length)" "check_rethrows strict_engine"
    by (simp_all add: weird_length_def pizza_with_ingredients_def ingredients_member_def
        pizza_has_ingredients_def pizza_of_def res_json_def ebind_def strict_engine_def)
  then have nw: "\<not> counted strict_engine weird_length"
    by (simp add: counted_def)
  have o: "\<not> counted strict_engine bare_pizza" "\<not> counted strict_engine unavailable"
    by (simp_all add: bare_pizza_def unavailable_def counted_def pizza_with_ingredients_def
        ingredients_member_def)
  show ?thesis
    using m w nw o
      metrics_counter_counts_counted_responses
        [of strict_engine margherita empty_sink "[JStr ''a'', JStr ''b'']"
            "[margherita, bare_pizza, unavailable, weird_length]"]
      metrics_counter_counts_counted_responses
        [of strict_engine weird_length empty_sink "[]" "[]"]
    by (simp add: empty_sink_def)
qed

text \<open>
  C10 as stated fails: a response with status 200 and the truthy pizza field \<^verbatim>\<open>{}\<close>
  passes the guard, and \<^verbatim>\<open>pizza.ingredients.length\<close> throws before
  \<^verbatim>\<open>pizzas.add(1)\<close>. No check throws on it, nothing is coerced and no metric is fed,
  so the engine's parameters are not consulted.
\<close>

theorem metrics_truthy_pizza_not_counted:
  "status bare_pizza = 200 \<and> truthy_pizza bare_pizza
   \<and> fst (metrics_default example_engine bare_pizza empty_sink) = Inl TypeError
   \<and> snd (metrics_default example_engine bare_pizza empty_sink) ''quickpizza_number_of_pizzas'' = []
   \<and> snd (metrics_default example_engine bare_pizza empty_sink) ''quickpizza_ingredients'' = []
   \<and> snd (metrics_default example_engine bare_pizza empty_sink) ''checks'' = [1, 1, 0, 0]
   \<and> snd (metrics_default example_engine bare_pizza empty_sink) ''http_reqs'' = [1]"
  by (simp add: bare_pizza_def truthy_pizza_def pizza_of_def res_json_def ebind_def
      metrics_default_def metrics_collection_def js_bind_def js_lift_def js_return_def
      http_post_def http_request_def record_sample_def empty_sink_def status_is_200_def
      response_has_pizza_def pizza_has_name_def pizza_has_ingredients_def example_engine_def
      sleep_def)

text \<open>
  On the response whose \<^verbatim>\<open>ingredients.length\<close> is an object the comparison of the
  fourth check throws; where that leaves \<^verbatim>\<open>check\<close> the iteration ends there, before
  the collection statement.
\<close>

lemma weird_length_iteration:
  "fst (metrics_default strict_engine weird_length empty_sink) = Inl TypeError
   \<and> snd (metrics_default strict_engine weird_length empty_sink) ''checks'' = [1, 1, 0, 0]"
  by (simp add: weird_length_def truthy_pizza_def pizza_of_def res_json_def ebind_def
      metrics_default_def metrics_collection_def js_bind_def js_lift_def js_return_def
      http_post_def http_request_def record_sample_def empty_sink_def status_is_200_def
      response_has_pizza_def pizza_has_name_def pizza_has_ingredients_def strict_engine_def
      sleep_def)

section \<open>The setup function\<close>

text \<open>The setup function throws exactly on a status other than 200, after its request.\<close>

lemma setup_fn_raises:
  "status r \<noteq> 200 \<Longrightarrow>
     setup_fn r s = (Inl (SetupFailed (status r)), record_sample ''http_reqs'' 1 s)"
  by (simp add: setup_fn_def js_bind_def js_throw_def http_get_def http_request_def)

lemma setup_fn_returns:
  "status r = 200 \<Longrightarrow> setup_fn r s = (Inr (), record_sample ''http_reqs'' 1 s)"
  by (simp add: setup_fn_def js_bind_def js_return_def http_get_def http_request_def)

section \<open>Percentiles and the average of a Trend\<close>

lemma percentile_rank_bounds:
  assumes "0 < p" "p \<le> 100" "0 < n"
  shows "0 \<le> percentile_rank p n" "percentile_rank p n < int n"
proof -
  have "0 < p / 100 * of_nat n"
    using assms by simp
  then have "0 < \<lceil>p / 100 * of_nat n\<rceil>"
    by (simp add: zero_less_ceiling)
  then show "0 \<le> percentile_rank p n"
    by (simp add: percentile_rank_def)
  have "p / 100 * of_nat n \<le> 1 * of_nat n"
    using assms by (intro mult_right_mono) simp_all
  then have "\<lceil>p / 100 * of_nat n\<rceil> \<le> int n"
    by (simp add: ceiling_le_iff)
  then show "percentile_rank p n < int n"
    by (simp add: percentile_rank_def)
qed

lemma percentile_rank_mono:
  assumes "p \<le> q"
  shows "percentile_rank p n \<le> percentile_rank q n"
proof -
  have "p / 100 * of_nat n \<le> q / 100 * of_nat n"
    using assms by (intro mult_right_mono) (simp_all add: divide_right_mono)
  then have "\<lceil>p / 100 * of_nat n\<rceil> \<le> \<lceil>q / 100 * of_nat n\<rceil>"
    by (rule ceiling_mono)
  then show ?thesis
    unfolding percentile_rank_def by linarith
qed

lemma percentile_mono:
  assumes "xs \<noteq> []" "0 < p" "p \<le> q" "q \<le> 100"
  shows "\<exists>a b. percentile p xs = Some a \<and> percentile q xs = Some b \<and> a \<le> b"
proof -
  let ?n = "length xs"
  have n: "0 < ?n" using assms(1) by simp
  have p: "0 \<le> percentile_rank p ?n" "percentile_rank p ?n < int ?n"
    using percentile_rank_bounds[of p ?n] assms n by simp_all
  have q: "0 \<le> percentile_rank q ?n" "percentile_rank q ?n < int ?n"
    using percentile_rank_bounds[of q ?n] assms n by simp_all
  have "nat (percentile_rank p ?n) \<le> nat (percentile_rank q ?n)"
    using percentile_rank_mono[OF assms(3), of ?n] by simp
  moreover have "nat (percentile_rank q ?n) < length (sort xs)"
    using q by simp
  ultimately have "sort xs ! nat (percentile_rank p ?n) \<le> sort xs ! nat (percentile_rank q ?n)"
    by (intro sorted_nth_mono) simp_all
  with p q show ?thesis
    by (simp add: percentile_def Let_def)
qed

lemma sum_list_le_bound:
  fixes t :: rat
  shows "\<forall>x \<in> set xs. x \<le> t \<Longrightarrow> sum_list xs \<le> of_nat (length xs) * t"
  by (induction xs) (simp_all add: algebra_simps)

lemma average_le_p100:
  assumes "xs \<noteq> []"
  shows "\<exists>m t. average xs = Some m \<and> percentile 100 xs = Some t \<and> m \<le> t"
proof -
  let ?n = "length xs"
  have n: "0 < ?n" using assms by simp
  have r: "percentile_rank 100 ?n = int ?n - 1"
    by (simp add: percentile_rank_def)
  let ?t = "sort xs ! (?n - 1)"
  have "nat (int ?n - 1) = ?n - 1"
    by linarith
  with n r have t: "percentile 100 xs = Some ?t"
    by (simp add: percentile_def Let_def)
  have "x \<le> ?t" if "x \<in> set xs" for x
  proof -
    from that have "x \<in> set (sort xs)" by simp
    then obtain i where "i < length (sort xs)" "sort xs ! i = x"
      unfolding in_set_conv_nth by blast
    then show ?thesis
      using sorted_nth_mono[of "sort xs" i "?n - 1"] n by auto
  qed
  then have "sum_list xs \<le> of_nat ?n * ?t"
    by (intro sum_list_le_bound) simp
  then have "sum_list xs / of_nat ?n \<le> ?t"
    using n by (simp add: pos_divide_le_eq mult.commute)
  with t assms show ?thesis
    by (simp add: average_def)
qed

text \<open>
  C3, as amended. For every non-empty Trend series the percentiles exist and are ordered
  p90, p95, p99, p100, each at most the next; the average is at most p100, the maximum.
  The average is not bounded by p90.
\<close>

theorem percentiles_monotone:
  assumes "xs \<noteq> []"
  shows "\<exists>a b c t m. percentile 99 xs = Some a \<and> percentile 95 xs = Some b
           \<and> percentile 90 xs = Some c \<and> percentile 100 xs = Some t \<and> average xs = Some m
           \<and> c \<le> b \<and> b \<le> a \<and> a \<le> t \<and> m \<le> t"
proof -
  from percentile_mono[OF assms, of 90 95] obtain c b where
    1: "percentile 90 xs = Some c" "percentile 95 xs = Some b" "c \<le> b" by auto
  from percentile_mono[OF assms, of 95 99] 1 obtain a where
    2: "percentile 99 xs = Some a" "b \<le> a" by auto
  from percentile_mono[OF assms, of 99 100] 2 obtain t where
    3: "percentile 100 xs = Some t" "a \<le> t" by auto
  from average_le_p100[OF assms] 3 obtain m where
    4: "average xs = Some m" "m \<le> t" by auto
  from 1 2 3 4 show ?thesis by blast
qed

text \<open>The aggregates of the skewed series.\<close>

lemma skewed_values:
  "percentile 90 skewed_counts = Some 1" "percentile 95 skewed_counts = Some 12"
  "percentile 99 skewed_counts = Some 12" "percentile 100 skewed_counts = Some 12"
  "average skewed_counts = Some 2"
  by code_simp+

text \<open>The amended C3 at the skewed series.\<close>

theorem percentiles_monotone_witness:
  "skewed_counts \<noteq> [] \<and> percentile 99 skewed_counts = Some 12
   \<and> percentile 95 skewed_counts = Some 12 \<and> percentile 90 skewed_counts = Some 1
   \<and> percentile 100 skewed_counts = Some 12 \<and> average skewed_counts = Some 2"
proof -
  have h: "skewed_counts \<noteq> []" by (simp add: skewed_counts_def)
  show ?thesis
    using h percentiles_monotone[OF h] by (simp add: skewed_values)
qed

text \<open>
  C3 as stated fails: on the skewed series, which is not empty and has two distinct
  values, the rank of p90 is 9, the tenth smallest sample is 1, and the average is 2.
\<close>

theorem p90_below_average:
  "percentile 90 skewed_counts = Some 1 \<and> average skewed_counts = Some 2
   \<and> \<not> p99_p95_p90_avg_ordered skewed_counts"
  by (simp add: skewed_values p99_p95_p90_avg_ordered_def)

end
